theory Spec2Isabelle
  imports Main
begin

section \<open>Http.ts: the method enumeration\<close>

text \<open>
  \<^verbatim>\<open>export const enum Method { connect = 'CONNECT', delete = 'DELETE', get = 'GET', ... }\<close>
  A const enum is inlined: at run time a method is its string value, so the
  constructors carry the values.
\<close>

datatype Method = CONNECT | DELETE | GET | HEAD | OPTIONS | PATCH | POST | PUT | TRACE

section \<open>JavaScript values, optional properties, promises\<close>

text \<open>
  The values that can be thrown, used as a rejection reason or passed as the
  \<^verbatim>\<open>body: unknown\<close> argument. \<open>TypeError msg\<close> is \<^verbatim>\<open>new TypeError(msg)\<close>;
  \<open>JsOther\<close> stands for every other value (a network error object, a body).
\<close>

datatype 'x js_value = JsUndefined | JsNull | TypeError string | JsOther 'x

text \<open>\<^verbatim>\<open>v == null\<close> holds of \<^verbatim>\<open>null\<close> and \<^verbatim>\<open>undefined\<close> only.\<close>

fun is_nullish :: "'x js_value \<Rightarrow> bool" where
  "is_nullish JsUndefined = True"
| "is_nullish JsNull = True"
| "is_nullish _ = False"

text \<open>
  An optional property \<^verbatim>\<open>k?: T\<close> of an object literal: the key is missing, or
  present holding \<^verbatim>\<open>undefined\<close>, or present holding a value. Reading \<^verbatim>\<open>o.k\<close>
  gives \<^verbatim>\<open>undefined\<close> (\<open>None\<close>) in the first two cases; an object spread tells
  them apart.
\<close>

datatype 'a property = Absent | Undefined | Present 'a

fun read :: "'a property \<Rightarrow> 'a option" where
  "read Absent = None"
| "read Undefined = None"
| "read (Present v) = Some v"

fun has_key :: "'a property \<Rightarrow> bool" where
  "has_key Absent = False"
| "has_key _ = True"

text \<open>
  One key of \<^verbatim>\<open>{ k: earlier, ...later }\<close> or \<^verbatim>\<open>{ ...earlier, ...later }\<close>: the
  spread copies every own key of \<open>later\<close>, also one holding \<^verbatim>\<open>undefined\<close>.
\<close>

fun spread :: "'a property \<Rightarrow> 'a property \<Rightarrow> 'a property" where
  "spread earlier Absent = earlier"
| "spread earlier later = later"

text \<open>\<^verbatim>\<open>a ?? b\<close>\<close>

fun nullish_coalesce :: "'a option \<Rightarrow> 'a \<Rightarrow> 'a" where
  "nullish_coalesce None b = b"
| "nullish_coalesce (Some a) b = a"

text \<open>
  The state of a promise. \<open>resolve\<close> and \<open>reject\<close> are the two functions handed
  to the executor of \<^verbatim>\<open>new Promise\<close>: only the first call settles the promise.
\<close>

datatype ('e, 'a) promise = Pending | Fulfilled 'a | Rejected 'e

fun resolve :: "'a \<Rightarrow> ('e, 'a) promise \<Rightarrow> ('e, 'a) promise" where
  "resolve v Pending = Fulfilled v"
| "resolve v p = p"

fun reject :: "'e \<Rightarrow> ('e, 'a) promise \<Rightarrow> ('e, 'a) promise" where
  "reject e Pending = Rejected e"
| "reject e p = p"

section \<open>The interfaces\<close>

datatype header_value = Single string | Multiple "string list"

text \<open>
  \<^verbatim>\<open>InternalResponse\<close> names five keys; an object of that type may carry
  further own keys (a limiter's wrapper may add some), which \<open>others\<close> holds
  by name.
\<close>

record 'x InternalResponse =
  headers :: "string \<rightharpoonup> header_value"
  rawData :: string
  statusCode :: int
  statusMessage :: string
  trailers :: "string \<rightharpoonup> string"
  others :: "string \<rightharpoonup> 'x js_value"

record RequestOptions =
  "method" :: "Method property"
  url :: string

record 'x Response = "'x InternalResponse" +
  requestOptions :: RequestOptions

text \<open>
  \<^verbatim>\<open>InternalRequestOptions\<close> is Node's \<^verbatim>\<open>https.RequestOptions\<close>; the client
  only ever builds \<^verbatim>\<open>{ method: filledOptions.method }\<close>, whose one key holds a
  method or \<^verbatim>\<open>undefined\<close>.
\<close>

record InternalRequestOptions =
  internal_method :: "Method option"

text \<open>
  \<^verbatim>\<open>typeof asyncRequest\<close>: \<^verbatim>\<open>(url, options, body, secure) => Promise<InternalResponse>\<close>.
  The network and a limiter's queue are state outside the program, so a
  transport takes the world \<open>'w\<close> and returns it with the promise's outcome.
\<close>

type_synonym ('x, 'w) transport =
  "string \<Rightarrow> InternalRequestOptions \<Rightarrow> 'x js_value \<Rightarrow> bool \<Rightarrow> 'w
     \<Rightarrow> ('x js_value, 'x InternalResponse) promise \<times> 'w"

record ('x, 'w) WebClientOptions =
  baseUrl :: "string property"
  defaultMethod :: "Method property"
  limiter :: "(('x, 'w) transport \<Rightarrow> ('x, 'w) transport) property"

section \<open>hasProtocol, hasSecureProtocol\<close>

text \<open>\<^verbatim>\<open>/^https?:/.test(url)\<close>\<close>

definition hasProtocol :: "string \<Rightarrow> bool" where
  "hasProtocol u = (take 5 u = ''http:'' \<or> take 6 u = ''https:'')"

text \<open>\<^verbatim>\<open>url.startsWith('https:')\<close>\<close>

definition hasSecureProtocol :: "string \<Rightarrow> bool" where
  "hasSecureProtocol u = (take 6 u = ''https:'')"

section \<open>The two regular-expression replacements\<close>

definition is_slash :: "char \<Rightarrow> bool" where
  "is_slash c = (c = CHR ''/'')"

text \<open>
  \<^verbatim>\<open>/\/*$/\<close> tried at a position with \<open>t\<close> the input from there on: the star
  first takes the longest run of slashes, then gives them back one by one until
  \<^verbatim>\<open>$\<close> (no flag: the end of the input only) holds. The result is the length
  of the match.
\<close>

definition match_slashes_end :: "string \<Rightarrow> nat option" where
  "match_slashes_end t =
     find (\<lambda>k. drop k t = []) (rev [0 ..< Suc (length (takeWhile is_slash t))])"

text \<open>
  \<^verbatim>\<open>s.replace(re, r)\<close> for a regular expression without the g flag and a
  replacement \<open>r\<close> without \<^verbatim>\<open>$\<close> patterns: the leftmost position where \<open>re\<close>
  matches (the end of the input is a position too) has its match replaced;
  without a match the string is returned as it is.
\<close>

fun replace_first :: "(string \<Rightarrow> nat option) \<Rightarrow> string \<Rightarrow> string \<Rightarrow> string" where
  "replace_first re r [] = (case re [] of None \<Rightarrow> [] | Some k \<Rightarrow> r)"
| "replace_first re r (c # cs) =
     (case re (c # cs) of
        None \<Rightarrow> c # replace_first re r cs
      | Some k \<Rightarrow> r @ drop k (c # cs))"

text \<open>
  \<^verbatim>\<open>/^\/+/\<close>: \<^verbatim>\<open>^\<close> (no flag) holds at position 0 only, where the plus takes
  the longest run of slashes and needs at least one.
\<close>

definition match_slashes_start :: "string \<Rightarrow> nat option" where
  "match_slashes_start s =
     (let n = length (takeWhile is_slash s) in if 1 \<le> n then Some n else None)"

definition replace_at_start :: "(string \<Rightarrow> nat option) \<Rightarrow> string \<Rightarrow> string \<Rightarrow> string" where
  "replace_at_start re r s = (case re s of None \<Rightarrow> s | Some k \<Rightarrow> r @ drop k s)"

section \<open>fillRequestOptionDefaults\<close>

text \<open>
  The object literal
  \<^verbatim>\<open>{ method: clientOptions.defaultMethod ?? Http.Method.get, ...options }\<close>.
\<close>

definition newOptions :: "RequestOptions \<Rightarrow> ('x, 'w) WebClientOptions \<Rightarrow> RequestOptions" where
  "newOptions opts clientOptions =
     \<lparr> method = spread (Present (nullish_coalesce (read (defaultMethod clientOptions)) GET))
                       (method opts),
       url = url opts \<rparr>"

definition url_without_protocol :: string where
  "url_without_protocol = ''`url` doesn't include a protocol and `baseUrl` isn't set''"

definition fillRequestOptionDefaults ::
  "RequestOptions \<Rightarrow> ('x, 'w) WebClientOptions \<Rightarrow> 'x js_value + RequestOptions" where
  "fillRequestOptionDefaults opts clientOptions =
     (if \<not> hasProtocol (url opts) then
        (case read (baseUrl clientOptions) of
           None \<Rightarrow> Inl (TypeError url_without_protocol)
         | Some b \<Rightarrow>
             Inr ((newOptions opts clientOptions)
                    \<lparr> url := replace_first match_slashes_end ''/'' b
                              @ replace_at_start match_slashes_start '''' (url opts) \<rparr>))
      else Inr (newOptions opts clientOptions))"

section \<open>asyncRequest\<close>

text \<open>
  Node's \<^verbatim>\<open>http.request\<close> and \<^verbatim>\<open>https.request\<close> are outside the program.
  What they do to the listeners that \<open>asyncRequest\<close> registers is a sequence of
  events: the response callback is invoked, the response emits \<^verbatim>\<open>data\<close>,
  \<^verbatim>\<open>end\<close> and \<^verbatim>\<open>error\<close>, the request emits \<^verbatim>\<open>error\<close>, the callback of
  \<^verbatim>\<open>request.write\<close> is invoked. \<open>IncomingMessage\<close> is what the response object
  holds when \<^verbatim>\<open>end\<close> fires, where the handler reads it.
\<close>

record IncomingMessage =
  message_headers :: "string \<rightharpoonup> header_value"
  message_statusCode :: int
  message_statusMessage :: string
  message_trailers :: "string \<rightharpoonup> string"

datatype 'x event =
    OnResponse
  | OnData string
  | OnEnd IncomingMessage
  | OnResponseError "'x js_value"
  | OnRequestError "'x js_value"
  | OnWriteCallback "'x js_value"

text \<open>
  The two functions take the url, the options and what is written to the
  request before \<^verbatim>\<open>request.end()\<close>, and answer with the events of this request.
  An exception that the call itself throws inside the promise's executor
  rejects the promise and ends the executor; the single event
  \<open>OnRequestError\<close> stands for it.
\<close>

record ('x, 'w) node =
  requestHttp :: "string \<Rightarrow> InternalRequestOptions \<Rightarrow> 'x js_value option \<Rightarrow> 'w \<Rightarrow> 'x event list \<times> 'w"
  requestHttps :: "string \<Rightarrow> InternalRequestOptions \<Rightarrow> 'x js_value option \<Rightarrow> 'w \<Rightarrow> 'x event list \<times> 'w"

text \<open>
  The state of one call: the promise, and \<^verbatim>\<open>let result\<close> of the response
  callback (\<open>None\<close> until the callback has run, so that the response's listeners
  do not exist yet).
\<close>

record 'x call =
  settled :: "('x js_value, 'x InternalResponse) promise"
  result :: "string option"

fun handle :: "'x js_value \<Rightarrow> 'x call \<Rightarrow> 'x event \<Rightarrow> 'x call" where
  "handle body c OnResponse = c\<lparr>result := Some []\<rparr>"
| "handle body c (OnData chunk) =
     (case result c of None \<Rightarrow> c | Some r \<Rightarrow> c\<lparr>result := Some (r @ chunk)\<rparr>)"
| "handle body c (OnEnd response) =
     (case result c of
        None \<Rightarrow> c
      | Some r \<Rightarrow>
          c\<lparr>settled :=
              resolve \<lparr> headers = message_headers response,
                        rawData = r,
                        statusCode = message_statusCode response,
                        statusMessage = message_statusMessage response,
                        trailers = message_trailers response,
                        others = Map.empty \<rparr>
                      (settled c)\<rparr>)"
| "handle body c (OnResponseError e) =
     (case result c of None \<Rightarrow> c | Some r \<Rightarrow> c\<lparr>settled := reject e (settled c)\<rparr>)"
| "handle body c (OnRequestError e) = c\<lparr>settled := reject e (settled c)\<rparr>"
| "handle body c (OnWriteCallback e) =
     (if \<not> is_nullish body then c\<lparr>settled := reject e (settled c)\<rparr> else c)"

definition asyncRequest :: "('x, 'w) node \<Rightarrow> ('x, 'w) transport" where
  "asyncRequest node u opts body secure w =
     (let performRequest = (if secure then requestHttps node else requestHttp node);
          (events, w') = performRequest u opts (if \<not> is_nullish body then Some body else None) w
      in (settled (foldl (handle body) \<lparr>settled = Pending, result = None\<rparr> events), w'))"

section \<open>WebClient\<close>

text \<open>
  A client as one of its methods finds it: \<open>options\<close> is what the object
  behind \<^verbatim>\<open>this.options\<close> holds at the time of the call, \<open>requestFn\<close> is
  \<^verbatim>\<open>this.requestFn\<close>.
\<close>

record ('x, 'w) WebClient =
  options :: "('x, 'w) WebClientOptions"
  requestFn :: "('x, 'w) transport"

text \<open>
  The constructor does not copy its argument, so the caller, who still holds
  the object, can assign to its keys between two calls. A store gives the
  contents of the options objects by address; a client object holds the address
  of its options and its transport function.
\<close>

type_synonym address = nat

type_synonym ('x, 'w) store = "address \<Rightarrow> ('x, 'w) WebClientOptions"

record ('x, 'w) client_object =
  options_at :: address
  object_requestFn :: "('x, 'w) transport"

definition baseUrl_without_protocol :: string where
  "baseUrl_without_protocol = ''`baseUrl` doesn't include a protocol''"

text \<open>
  The constructor, given what the options object holds when it runs; \<open>Inl\<close>
  is what it throws. \<^verbatim>\<open>this.options = options\<close> keeps the caller's object
  itself: \<open>new_WebClient_at\<close> below is the constructor on a store of objects.
\<close>

definition new_WebClient ::
  "('x, 'w) node \<Rightarrow> ('x, 'w) WebClientOptions \<Rightarrow> 'x js_value + ('x, 'w) WebClient" where
  "new_WebClient node opts =
     (if (case read (baseUrl opts) of None \<Rightarrow> False | Some b \<Rightarrow> \<not> hasProtocol b)
      then Inl (TypeError baseUrl_without_protocol)
      else Inr \<lparr> options = opts,
                 requestFn = (case read (limiter opts) of
                                Some l \<Rightarrow> l (asyncRequest node)
                              | None \<Rightarrow> asyncRequest node) \<rparr>)"



text \<open>
  \<^verbatim>\<open>const x = await p; return k(x)\<close> in the body of an \<^verbatim>\<open>async\<close> function: the
  function's promise stays pending while \<open>p\<close> is, is rejected with the reason
  of \<open>p\<close> (nothing catches what \<^verbatim>\<open>await\<close> throws), and is fulfilled with
  \<open>k x\<close> otherwise.
\<close>

fun await_then :: "('e, 'a) promise \<Rightarrow> ('a \<Rightarrow> 'b) \<Rightarrow> ('e, 'b) promise" where
  "await_then Pending k = Pending"
| "await_then (Rejected e) k = Rejected e"
| "await_then (Fulfilled x) k = Fulfilled (k x)"

text \<open>
  The object literal \<^verbatim>\<open>{ ...internalResponse, requestOptions: filledOptions }\<close>:
  the spread copies every own key of \<open>internalResponse\<close>, and the key
  \<^verbatim>\<open>requestOptions\<close> written after it replaces one of that name.
\<close>

definition assemble :: "RequestOptions \<Rightarrow> 'x InternalResponse \<Rightarrow> 'x Response" where
  "assemble filledOptions internalResponse =
     \<lparr> headers = headers internalResponse,
       rawData = rawData internalResponse,
       statusCode = statusCode internalResponse,
       statusMessage = statusMessage internalResponse,
       trailers = trailers internalResponse,
       others = (others internalResponse)(''requestOptions'' := None),
       requestOptions = filledOptions \<rparr>"

text \<open>
  \<^verbatim>\<open>request\<close> is an \<^verbatim>\<open>async\<close> function: the call returns a promise (\<open>Inr\<close>)
  whatever its body does, and an exception of the body rejects that promise.
  \<open>Inl\<close> would be an exception thrown by the call itself.
\<close>

definition request ::
  "('x, 'w) WebClient \<Rightarrow> RequestOptions \<Rightarrow> 'w
     \<Rightarrow> ('x js_value + ('x js_value, 'x Response) promise) \<times> 'w" where
  "request this opts w =
     (case fillRequestOptionDefaults opts (options this) of
        Inl e \<Rightarrow> (Inr (Rejected e), w)
      | Inr filledOptions \<Rightarrow>
          (case requestFn this (url filledOptions)
                  \<lparr> internal_method = read (method filledOptions) \<rparr>
                  JsUndefined
                  (hasSecureProtocol (url filledOptions)) w of
             (p, w') \<Rightarrow>
               (Inr (await_then p (assemble filledOptions)), w')))"

section \<open>The options object is shared with the caller\<close>

text \<open>\<^verbatim>\<open>new WebClient(options)\<close>, with the options object at address \<open>a\<close>.\<close>

definition new_WebClient_at ::
  "('x, 'w) node \<Rightarrow> ('x, 'w) store \<Rightarrow> address \<Rightarrow> 'x js_value + ('x, 'w) client_object" where
  "new_WebClient_at node s a =
     (case new_WebClient node (s a) of
        Inl e \<Rightarrow> Inl e
      | Inr this \<Rightarrow> Inr \<lparr> options_at = a, object_requestFn = requestFn this \<rparr>)"

text \<open>The client that a method of the client object finds when the store is \<open>s\<close>.\<close>

definition object_state :: "('x, 'w) store \<Rightarrow> ('x, 'w) client_object \<Rightarrow> ('x, 'w) WebClient" where
  "object_state s i = \<lparr> options = s (options_at i), requestFn = object_requestFn i \<rparr>"

definition request_at ::
  "('x, 'w) store \<Rightarrow> ('x, 'w) client_object \<Rightarrow> RequestOptions \<Rightarrow> 'w
     \<Rightarrow> ('x js_value + ('x js_value, 'x Response) promise) \<times> 'w" where
  "request_at s i opts w = request (object_state s i) opts w"

text \<open>The caller's \<^verbatim>\<open>options.baseUrl = v\<close> on the object at address \<open>a\<close>.\<close>

definition assign_baseUrl ::
  "('x, 'w) store \<Rightarrow> address \<Rightarrow> string \<Rightarrow> ('x, 'w) store" where
  "assign_baseUrl s a v = s(a := (s a)\<lparr>baseUrl := Present v\<rparr>)"

section \<open>What the specification says\<close>

text \<open>
  The resolved URL in the specification's words: all trailing slashes stripped
  from \<^verbatim>\<open>baseUrl\<close>, exactly one slash, then \<^verbatim>\<open>options.url\<close> with all leading
  slashes stripped.
\<close>

definition strip_trailing_slashes :: "string \<Rightarrow> string" where
  "strip_trailing_slashes s = rev (dropWhile is_slash (rev s))"

definition strip_leading_slashes :: "string \<Rightarrow> string" where
  "strip_leading_slashes s = dropWhile is_slash s"

definition spec_resolved_url :: "string \<Rightarrow> string \<Rightarrow> string" where
  "spec_resolved_url b u = strip_trailing_slashes b @ ''/'' @ strip_leading_slashes u"


definition no_options :: "('x, 'w) WebClientOptions" where
  "no_options = \<lparr> baseUrl = Absent, defaultMethod = Absent, limiter = Absent \<rparr>"


section \<open>Example values\<close>

text \<open>
  A world that records every request made through Node: which of the two
  functions was called (\<open>True\<close> for \<^verbatim>\<open>https.request\<close>), the url, the options and
  what was written.
\<close>

type_synonym wire = "(bool \<times> string \<times> InternalRequestOptions \<times> string js_value option) list"

definition ok_message :: IncomingMessage where
  "ok_message =
     \<lparr> message_headers = Map.empty, message_statusCode = 200,
       message_statusMessage = ''OK'', message_trailers = Map.empty \<rparr>"

text \<open>A server that answers every request with 200 and the body \<^verbatim>\<open>hello\<close> in two chunks.\<close>

definition hello_node :: "(string, wire) node" where
  "hello_node =
     \<lparr> requestHttp = (\<lambda>u opts written w.
          ([OnResponse, OnData ''hel'', OnData ''lo'', OnEnd ok_message],
           w @ [(False, u, opts, written)])),
       requestHttps = (\<lambda>u opts written w.
          ([OnResponse, OnData ''hel'', OnData ''lo'', OnEnd ok_message],
           w @ [(True, u, opts, written)])) \<rparr>"

text \<open>A connection that breaks in the middle of the response, and goes on emitting.\<close>

definition broken_node :: "(string, wire) node" where
  "broken_node =
     \<lparr> requestHttp = (\<lambda>u opts written w.
          ([OnResponse, OnData ''par'', OnResponseError (JsOther ''ECONNRESET''),
            OnData ''tial'', OnEnd ok_message, OnRequestError (JsOther ''EPIPE'')],
           w @ [(False, u, opts, written)])),
       requestHttps = (\<lambda>u opts written w.
          ([OnRequestError (JsOther ''ECONNREFUSED'')],
           w @ [(True, u, opts, written)])) \<rparr>"

definition api_options :: "(string, wire) WebClientOptions" where
  "api_options =
     \<lparr> baseUrl = Present ''https://api.example.com//'', defaultMethod = Absent,
       limiter = Absent \<rparr>"

definition ftp_options :: "(string, wire) WebClientOptions" where
  "ftp_options =
     \<lparr> baseUrl = Present ''ftp://files.example.com/'', defaultMethod = Absent,
       limiter = Absent \<rparr>"

definition post_options :: "(string, wire) WebClientOptions" where
  "post_options =
     \<lparr> baseUrl = Present ''https://api.example.com'', defaultMethod = Present POST,
       limiter = Absent \<rparr>"

definition hello_response :: "string InternalResponse" where
  "hello_response =
     \<lparr> headers = Map.empty, rawData = ''hello'', statusCode = 200, statusMessage = ''OK'',
       trailers = Map.empty, others = Map.empty \<rparr>"

text \<open>A store whose every options object holds \<open>api_options\<close>.\<close>

definition api_store :: "(string, wire) store" where
  "api_store a = api_options"

text \<open>A limiter whose wrapper calls the transport with the opposite flag.\<close>

definition flip_secure :: "(string, wire) transport \<Rightarrow> (string, wire) transport" where
  "flip_secure fn u opts body secure w = fn u opts body (\<not> secure) w"

definition flip_options :: "(string, wire) WebClientOptions" where
  "flip_options = \<lparr> baseUrl = Absent, defaultMethod = Absent, limiter = Present flip_secure \<rparr>"



section \<open>The replacements strip slashes\<close>

lemma match_slashes_end_eq:
  "match_slashes_end t = (if \<forall>c \<in> set t. is_slash c then Some (length t) else None)"
proof (cases "\<forall>c \<in> set t. is_slash c")
  case True
  then have "takeWhile is_slash t = t" by simp
  then have "match_slashes_end t = find (\<lambda>k. drop k t = []) (rev [0 ..< Suc (length t)])"
    by (simp only: match_slashes_end_def)
  then show ?thesis using True by simp
next
  case False
  then have "length (takeWhile is_slash t) < length t"
    using length_takeWhile_le [of is_slash t] takeWhile_eq_all_conv [of is_slash t]
      takeWhile_eq_take [of is_slash t]
    by (cases "length (takeWhile is_slash t) = length t") auto
  then have "find (\<lambda>k. drop k t = []) (rev [0 ..< Suc (length (takeWhile is_slash t))]) = None"
    by (auto simp: find_None_iff)
  then show ?thesis using False by (simp add: match_slashes_end_def)
qed

lemma strip_trailing_Cons:
  "strip_trailing_slashes (c # cs) =
     (if (\<forall>x \<in> set (c # cs). is_slash x) then [] else c # strip_trailing_slashes cs)"
  by (auto simp: strip_trailing_slashes_def dropWhile_append)

lemma replace_trailing_eq:
  "replace_first match_slashes_end ''/'' s = strip_trailing_slashes s @ ''/''"
proof (induction s)
  case Nil
  show ?case by (simp add: match_slashes_end_eq strip_trailing_slashes_def)
next
  case (Cons c cs)
  show ?case
    using Cons.IH by (simp add: match_slashes_end_eq strip_trailing_Cons)
qed

lemma replace_leading_eq:
  "replace_at_start match_slashes_start [] s = strip_leading_slashes s"
  by (cases s) (auto simp: replace_at_start_def match_slashes_start_def strip_leading_slashes_def
        Let_def dropWhile_eq_drop)

lemma dropWhile_replicate_slash:
  "dropWhile is_slash (replicate i CHR ''/'' @ s) = dropWhile is_slash s"
  by (induction i) (simp_all add: is_slash_def)

lemma strip_trailing_replicate:
  "strip_trailing_slashes (s @ replicate i CHR ''/'') = strip_trailing_slashes s"
  by (simp add: strip_trailing_slashes_def dropWhile_replicate_slash)

lemma strip_leading_replicate:
  "strip_leading_slashes (replicate j CHR ''/'' @ s) = strip_leading_slashes s"
  by (simp add: strip_leading_slashes_def dropWhile_replicate_slash)

lemma dropWhile_slash_not_Cons: "dropWhile is_slash t \<noteq> CHR ''/'' # r"
  by (induction t) (simp_all add: is_slash_def)

lemma no_trailing_slash: "strip_trailing_slashes s \<noteq> t @ ''/''"
proof
  assume "strip_trailing_slashes s = t @ ''/''"
  then have "rev (dropWhile is_slash (rev s)) = t @ ''/''"
    by (simp only: strip_trailing_slashes_def)
  then have "dropWhile is_slash (rev s) = rev (t @ ''/'')"
    using rev_swap [of "dropWhile is_slash (rev s)" "t @ ''/''"] by blast
  then show False
    using dropWhile_slash_not_Cons [of "rev s" "rev t"] by simp
qed

lemma no_leading_slash: "strip_leading_slashes s \<noteq> CHR ''/'' # t"
  by (simp add: strip_leading_slashes_def dropWhile_slash_not_Cons)

section \<open>fillRequestOptionDefaults\<close>

lemma fill_absolute:
  "hasProtocol (url opts) \<Longrightarrow>
     fillRequestOptionDefaults opts clientOptions = Inr (newOptions opts clientOptions)"
  by (simp add: fillRequestOptionDefaults_def)

lemma fill_relative:
  "\<not> hasProtocol (url opts) \<Longrightarrow> read (baseUrl clientOptions) = Some b \<Longrightarrow>
     fillRequestOptionDefaults opts clientOptions =
       Inr ((newOptions opts clientOptions)\<lparr>url := spec_resolved_url b (url opts)\<rparr>)"
  by (simp add: fillRequestOptionDefaults_def replace_trailing_eq replace_leading_eq
        spec_resolved_url_def)

lemma fill_no_baseUrl:
  "\<not> hasProtocol (url opts) \<Longrightarrow> read (baseUrl clientOptions) = None \<Longrightarrow>
     fillRequestOptionDefaults opts clientOptions = Inl (TypeError url_without_protocol)"
  by (simp add: fillRequestOptionDefaults_def)

lemma new_WebClient_Inr:
  "new_WebClient node clientOptions = Inr this \<Longrightarrow>
     options this = clientOptions
     \<and> requestFn this = (case read (limiter clientOptions) of
                           Some l \<Rightarrow> l (asyncRequest node)
                         | None \<Rightarrow> asyncRequest node)
     \<and> (\<forall>b. read (baseUrl clientOptions) = Some b \<longrightarrow> hasProtocol b)"
  by (auto simp: new_WebClient_def split: if_splits option.splits)

lemma read_Present: "p = Present v \<Longrightarrow> read p = Some v"
  by simp

lemma fill_slash_variations:
  assumes "strip_trailing_slashes base = base"
    and "strip_leading_slashes path = path"
    and "\<not> hasProtocol (replicate j CHR ''/'' @ path)"
  shows "fillRequestOptionDefaults
           \<lparr>method = m, url = replicate j CHR ''/'' @ path\<rparr>
           \<lparr>baseUrl = Present (base @ replicate i CHR ''/''), defaultMethod = d, limiter = l\<rparr> =
         Inr \<lparr>method = spread (Present (nullish_coalesce (read d) GET)) m,
              url = base @ ''/'' @ path\<rparr>"
proof -
  have "spec_resolved_url (base @ replicate i CHR ''/'') (replicate j CHR ''/'' @ path) =
      base @ ''/'' @ path"
    by (simp only: spec_resolved_url_def strip_trailing_replicate strip_leading_replicate assms)
  then show ?thesis
    using assms(3)
    by (simp add: fill_relative [where b = "base @ replicate i CHR ''/''"] newOptions_def)
qed

section \<open>URL resolution\<close>

text \<open>
  C1. On a client whose \<^verbatim>\<open>baseUrl\<close> is set (the constructor has checked its
  protocol), a request url without a protocol is resolved to \<^verbatim>\<open>baseUrl\<close>
  without its trailing slashes, one slash, and the url without its leading
  slashes; neither fragment keeps a slash next to the joining one. For
  \<^verbatim>\<open>https://api.example.com\<close> followed by any number of slashes and
  \<^verbatim>\<open>v1/items\<close> preceded by any number of slashes, the resolved URL is
  \<^verbatim>\<open>https://api.example.com/v1/items\<close>.
\<close>

theorem C1_resolved_url:
  assumes "new_WebClient node clientOptions = Inr this"
    and "baseUrl clientOptions = Present b"
    and "\<not> hasProtocol (url opts)"
  shows "hasProtocol b
       \<and> fillRequestOptionDefaults opts (options this) =
           Inr ((newOptions opts clientOptions)
                  \<lparr>url := strip_trailing_slashes b @ ''/'' @ strip_leading_slashes (url opts)\<rparr>)
       \<and> (\<nexists>t. strip_trailing_slashes b = t @ ''/'')
       \<and> (\<nexists>t. strip_leading_slashes (url opts) = ''/'' @ t)
       \<and> fillRequestOptionDefaults
             \<lparr>method = m, url = replicate j CHR ''/'' @ ''v1/items''\<rparr>
             \<lparr>baseUrl = Present (''https://api.example.com'' @ replicate i CHR ''/''),
              defaultMethod = defaultMethod clientOptions, limiter = limiter clientOptions\<rparr> =
           Inr \<lparr>method = spread (Present (nullish_coalesce (read (defaultMethod clientOptions)) GET)) m,
                url = ''https://api.example.com/v1/items''\<rparr>"
proof -
  have c: "options this = clientOptions" and p: "hasProtocol b"
    using new_WebClient_Inr [OF assms(1)] assms(2) by simp_all
  have general: "fillRequestOptionDefaults opts (options this) =
      Inr ((newOptions opts clientOptions)
             \<lparr>url := strip_trailing_slashes b @ ''/'' @ strip_leading_slashes (url opts)\<rparr>)"
    using fill_relative [OF assms(3) read_Present [OF assms(2)]]
    by (simp add: c spec_resolved_url_def)
  have rel: "\<not> hasProtocol (replicate j CHR ''/'' @ ''v1/items'')"
    by (cases j) (simp_all add: hasProtocol_def)
  have base: "strip_trailing_slashes ''https://api.example.com'' = ''https://api.example.com''"
    by (simp add: strip_trailing_slashes_def is_slash_def)
  have path: "strip_leading_slashes ''v1/items'' = ''v1/items''"
    by (simp add: strip_leading_slashes_def is_slash_def)
  have particular: "fillRequestOptionDefaults
        \<lparr>method = m, url = replicate j CHR ''/'' @ ''v1/items''\<rparr>
        \<lparr>baseUrl = Present (''https://api.example.com'' @ replicate i CHR ''/''),
         defaultMethod = defaultMethod clientOptions, limiter = limiter clientOptions\<rparr> =
      Inr \<lparr>method = spread (Present (nullish_coalesce (read (defaultMethod clientOptions)) GET)) m,
           url = ''https://api.example.com/v1/items''\<rparr>"
    using fill_slash_variations [OF base path rel, of m i "defaultMethod clientOptions"
        "limiter clientOptions"]
    by simp
  have trailing: "\<nexists>t. strip_trailing_slashes b = t @ ''/''"
    using no_trailing_slash [of b] by blast
  have leading: "\<nexists>t. strip_leading_slashes (url opts) = ''/'' @ t"
    using no_leading_slash [of "url opts"] by simp
  from p general trailing leading particular show ?thesis
    by (intro conjI)
qed

theorem C1_resolved_url_witness:
  "new_WebClient hello_node api_options =
     Inr \<lparr>options = api_options, requestFn = asyncRequest hello_node\<rparr>
   \<and> baseUrl api_options = Present ''https://api.example.com//''
   \<and> \<not> hasProtocol (url \<lparr>method = Absent, url = ''///v1/items''\<rparr>)
   \<and> fillRequestOptionDefaults \<lparr>method = Absent, url = ''///v1/items''\<rparr> api_options =
       Inr \<lparr>method = Present GET, url = ''https://api.example.com/v1/items''\<rparr>"
proof -
  have built: "new_WebClient hello_node api_options =
      Inr \<lparr>options = api_options, requestFn = asyncRequest hello_node\<rparr>"
    by (simp add: new_WebClient_def api_options_def hasProtocol_def)
  have base: "baseUrl api_options = Present ''https://api.example.com//''"
    by (simp add: api_options_def)
  have rel: "\<not> hasProtocol (url \<lparr>method = Absent, url = ''///v1/items''\<rparr>)"
    by (simp add: hasProtocol_def)
  show ?thesis
    using built base rel C1_resolved_url [OF built base rel]
    by (simp add: newOptions_def strip_trailing_slashes_def strip_leading_slashes_def
          is_slash_def api_options_def)
qed

section \<open>request\<close>

lemma request_filled:
  "fillRequestOptionDefaults opts (options this) = Inr f \<Longrightarrow>
     request this opts w =
       (case requestFn this (url f) \<lparr>internal_method = read (method f)\<rparr> JsUndefined
               (hasSecureProtocol (url f)) w of
          (p, w') \<Rightarrow>
            (Inr (await_then p (assemble f)), w'))"
  by (simp add: request_def)

lemma request_not_filled:
  "fillRequestOptionDefaults opts (options this) = Inl e \<Longrightarrow>
     request this opts w = (Inr (Rejected e), w)"
  by (simp add: request_def)

lemma await_then_Fulfilled:
  "await_then p k = Fulfilled y \<Longrightarrow> \<exists>x. p = Fulfilled x \<and> y = k x"
  by (cases p) auto

lemma request_Fulfilled:
  assumes "request this opts w = (Inr (Fulfilled response), w')"
  shows "\<exists>f internalResponse.
           fillRequestOptionDefaults opts (options this) = Inr f
         \<and> requestFn this (url f) \<lparr>internal_method = read (method f)\<rparr> JsUndefined
              (hasSecureProtocol (url f)) w = (Fulfilled internalResponse, w')
         \<and> response = assemble f internalResponse"
proof (cases "fillRequestOptionDefaults opts (options this)")
  case (Inl e)
  then show ?thesis using assms by (simp add: request_not_filled)
next
  case (Inr f)
  obtain p v where call: "requestFn this (url f) \<lparr>internal_method = read (method f)\<rparr>
      JsUndefined (hasSecureProtocol (url f)) w = (p, v)"
    by (cases "requestFn this (url f) \<lparr>internal_method = read (method f)\<rparr>
      JsUndefined (hasSecureProtocol (url f)) w")
  from assms have "v = w'" and "await_then p (assemble f) = Fulfilled response"
    by (simp_all add: request_filled [OF Inr] call)
  then show ?thesis
    using Inr call by (auto dest: await_then_Fulfilled)
qed



lemma assemble_sel [simp]:
  "headers (assemble f r) = headers r"
  "rawData (assemble f r) = rawData r"
  "statusCode (assemble f r) = statusCode r"
  "statusMessage (assemble f r) = statusMessage r"
  "trailers (assemble f r) = trailers r"
  "others (assemble f r) = (others r)(''requestOptions'' := None)"
  "requestOptions (assemble f r) = f"
  by (simp_all add: assemble_def)

section \<open>Client objects in the store\<close>

lemma new_WebClient_at_Inr:
  "new_WebClient_at node s a = Inr i \<Longrightarrow>
     options_at i = a
     \<and> object_requestFn i = (case read (limiter (s a)) of
                                Some l \<Rightarrow> l (asyncRequest node)
                              | None \<Rightarrow> asyncRequest node)
     \<and> (\<forall>b. read (baseUrl (s a)) = Some b \<longrightarrow> hasProtocol b)"
proof -
  assume built: "new_WebClient_at node s a = Inr i"
  then obtain this where made: "new_WebClient node (s a) = Inr this"
    and i: "i = \<lparr>options_at = a, object_requestFn = requestFn this\<rparr>"
    by (auto simp: new_WebClient_at_def split: sum.splits)
  from new_WebClient_Inr [OF made] i show ?thesis
    by simp
qed

lemma object_state_sel [simp]:
  "options (object_state s i) = s (options_at i)"
  "requestFn (object_state s i) = object_requestFn i"
  by (simp_all add: object_state_def)

section \<open>What asyncRequest resolves with\<close>




section \<open>The example server\<close>

lemma hello_transport:
  "asyncRequest hello_node u opts JsUndefined secure w =
     (Fulfilled \<lparr> headers = Map.empty, rawData = ''hello'', statusCode = 200,
                  statusMessage = ''OK'', trailers = Map.empty, others = Map.empty \<rparr>,
      w @ [(secure, u, opts, None)])"
  by (simp add: asyncRequest_def hello_node_def ok_message_def)

lemma api_client:
  "new_WebClient hello_node api_options =
     Inr \<lparr>options = api_options, requestFn = asyncRequest hello_node\<rparr>"
  by (simp add: new_WebClient_def api_options_def hasProtocol_def)

lemma api_fill:
  "fillRequestOptionDefaults \<lparr>method = Absent, url = ''/x''\<rparr> api_options =
     Inr \<lparr>method = Present GET, url = ''https://api.example.com/x''\<rparr>"
  by (simp add: fill_relative [where b = "''https://api.example.com//''"] hasProtocol_def
        api_options_def spec_resolved_url_def strip_trailing_slashes_def
        strip_leading_slashes_def is_slash_def newOptions_def)

section \<open>Transport invocation and response assembly\<close>




section \<open>Configuration errors\<close>

text \<open>
  C3, as the specification states it, fails: \<^verbatim>\<open>request\<close> is an \<^verbatim>\<open>async\<close>
  function, so on a client without \<^verbatim>\<open>baseUrl\<close> the call with the url
  \<^verbatim>\<open>/x\<close> returns a promise rejected with the TypeError; the call itself throws
  nothing.
\<close>

theorem C3_synchronous_throw_counterexample:
  "new_WebClient hello_node no_options =
     Inr \<lparr>options = no_options, requestFn = asyncRequest hello_node\<rparr>
   \<and> \<not> hasProtocol ''/x''
   \<and> request \<lparr>options = no_options, requestFn = asyncRequest hello_node\<rparr>
        \<lparr>method = Absent, url = ''/x''\<rparr> [] =
       (Inr (Rejected (TypeError url_without_protocol)), [])
   \<and> request \<lparr>options = no_options, requestFn = asyncRequest hello_node\<rparr>
        \<lparr>method = Absent, url = ''/x''\<rparr> [] \<noteq>
       (Inl (TypeError url_without_protocol), [])"
  by (simp add: new_WebClient_def no_options_def request_def fillRequestOptionDefaults_def
        hasProtocol_def)

text \<open>
  C3, amended. A request whose url has no protocol, on a client whose
  \<^verbatim>\<open>baseUrl\<close> is missing or \<^verbatim>\<open>undefined\<close>, returns a promise rejected with
  the TypeError \<^verbatim>\<open>`url` doesn't include a protocol and `baseUrl` isn't set\<close>; the
  transport is not called (the world is as before).
\<close>

theorem C3_relative_url_without_baseUrl:
  assumes "\<not> hasProtocol (url opts)"
    and "read (baseUrl (options this)) = None"
  shows "request this opts w = (Inr (Rejected (TypeError url_without_protocol)), w)"
  using fill_no_baseUrl [OF assms] by (simp add: request_not_filled)

theorem C3_relative_url_without_baseUrl_witness:
  "\<not> hasProtocol (url \<lparr>method = Present POST, url = ''v1/items''\<rparr>)
   \<and> read (baseUrl (options \<lparr>options = \<lparr>baseUrl = Undefined, defaultMethod = Present PUT,
                                            limiter = Absent\<rparr>,
                                requestFn = asyncRequest hello_node\<rparr>)) = None
   \<and> request \<lparr>options = \<lparr>baseUrl = Undefined, defaultMethod = Present PUT, limiter = Absent\<rparr>,
               requestFn = asyncRequest hello_node\<rparr>
        \<lparr>method = Present POST, url = ''v1/items''\<rparr> [] =
       (Inr (Rejected (TypeError url_without_protocol)), [])"
proof -
  have rel: "\<not> hasProtocol (url \<lparr>method = Present POST, url = ''v1/items''\<rparr>)"
    by (simp add: hasProtocol_def)
  have unset: "read (baseUrl (options \<lparr>options = \<lparr>baseUrl = Undefined,
      defaultMethod = Present PUT, limiter = Absent\<rparr>,
      requestFn = asyncRequest hello_node\<rparr>)) = None"
    by simp
  show ?thesis
    using rel unset C3_relative_url_without_baseUrl [OF rel unset, of "[]"]
    by (intro conjI)
qed

text \<open>
  C4. Constructing a client from options whose \<^verbatim>\<open>baseUrl\<close> does not start
  with \<^verbatim>\<open>http:\<close> or \<^verbatim>\<open>https:\<close> throws the TypeError
  \<^verbatim>\<open>`baseUrl` doesn't include a protocol\<close>. The constructor is the only place of
  that check: given the same options, \<open>fillRequestOptionDefaults\<close> does not
  fail, it resolves a url without protocol against that \<^verbatim>\<open>baseUrl\<close>, and
  \<^verbatim>\<open>request\<close> on an object holding them calls the transport.
\<close>

theorem C4_baseUrl_checked_by_constructor:
  assumes "baseUrl clientOptions = Present b"
    and "\<not> hasProtocol b"
  shows "new_WebClient node clientOptions = Inl (TypeError baseUrl_without_protocol)
       \<and> fillRequestOptionDefaults opts clientOptions =
           Inr (if hasProtocol (url opts) then newOptions opts clientOptions
                else (newOptions opts clientOptions)
                       \<lparr>url := strip_trailing_slashes b @ ''/'' @ strip_leading_slashes (url opts)\<rparr>)
       \<and> (\<exists>f. fillRequestOptionDefaults opts clientOptions = Inr f
              \<and> request \<lparr>options = clientOptions, requestFn = t\<rparr> opts w =
                  (Inr (await_then
                          (fst (t (url f) \<lparr>internal_method = read (method f)\<rparr> JsUndefined
                                  (hasSecureProtocol (url f)) w))
                          (assemble f)),
                   snd (t (url f) \<lparr>internal_method = read (method f)\<rparr> JsUndefined
                          (hasSecureProtocol (url f)) w)))"
proof -
  have r: "read (baseUrl clientOptions) = Some b"
    using assms(1) by simp
  have thrown: "new_WebClient node clientOptions = Inl (TypeError baseUrl_without_protocol)"
    using r assms(2) by (simp add: new_WebClient_def)
  have filled: "fillRequestOptionDefaults opts clientOptions =
      Inr (if hasProtocol (url opts) then newOptions opts clientOptions
           else (newOptions opts clientOptions)
                  \<lparr>url := strip_trailing_slashes b @ ''/'' @ strip_leading_slashes (url opts)\<rparr>)"
    using fill_relative [of opts clientOptions b, OF _ r] fill_absolute [of opts clientOptions]
    by (cases "hasProtocol (url opts)") (simp_all add: spec_resolved_url_def)
  then obtain f where f: "fillRequestOptionDefaults opts clientOptions = Inr f"
    by blast
  have "request \<lparr>options = clientOptions, requestFn = t\<rparr> opts w =
      (Inr (await_then
              (fst (t (url f) \<lparr>internal_method = read (method f)\<rparr> JsUndefined
                      (hasSecureProtocol (url f)) w))
              (assemble f)),
       snd (t (url f) \<lparr>internal_method = read (method f)\<rparr> JsUndefined
              (hasSecureProtocol (url f)) w))"
    using f by (simp add: request_def split: prod.splits)
  with f have called: "\<exists>f. fillRequestOptionDefaults opts clientOptions = Inr f
      \<and> request \<lparr>options = clientOptions, requestFn = t\<rparr> opts w =
          (Inr (await_then
                  (fst (t (url f) \<lparr>internal_method = read (method f)\<rparr> JsUndefined
                          (hasSecureProtocol (url f)) w))
                  (assemble f)),
           snd (t (url f) \<lparr>internal_method = read (method f)\<rparr> JsUndefined
                  (hasSecureProtocol (url f)) w))"
    by blast
  from thrown filled called show ?thesis
    by (intro conjI)
qed

theorem C4_baseUrl_checked_by_constructor_witness:
  "baseUrl ftp_options = Present ''ftp://files.example.com/''
   \<and> \<not> hasProtocol ''ftp://files.example.com/''
   \<and> new_WebClient hello_node ftp_options = Inl (TypeError baseUrl_without_protocol)
   \<and> fillRequestOptionDefaults \<lparr>method = Absent, url = ''/x''\<rparr> ftp_options =
       Inr \<lparr>method = Present GET, url = ''ftp://files.example.com/x''\<rparr>"
proof -
  have present: "baseUrl ftp_options = Present ''ftp://files.example.com/''"
    by (simp add: ftp_options_def)
  have bad: "\<not> hasProtocol ''ftp://files.example.com/''"
    by (simp add: hasProtocol_def)
  have rel: "\<not> hasProtocol ''/x''"
    by (simp add: hasProtocol_def)
  have "strip_trailing_slashes ''ftp://files.example.com/'' @ ''/'' @ strip_leading_slashes ''/x''
      = ''ftp://files.example.com/x''"
    by (simp add: strip_trailing_slashes_def strip_leading_slashes_def is_slash_def)
  then show ?thesis
    using present bad
      C4_baseUrl_checked_by_constructor [OF present bad, of hello_node
        "\<lparr>method = Absent, url = ''/x''\<rparr>" "asyncRequest hello_node" "[]"]
    by (auto simp: rel newOptions_def ftp_options_def)
qed

section \<open>Default filling\<close>

lemma newOptions_method_Undefined:
  "method opts = Undefined \<Longrightarrow> method (newOptions opts clientOptions) = Undefined"
  by (simp add: newOptions_def)

lemma fill_method:
  "fillRequestOptionDefaults opts clientOptions = Inr f \<Longrightarrow>
     method f = method (newOptions opts clientOptions)"
  by (auto simp: fillRequestOptionDefaults_def split: if_splits option.splits)

text \<open>
  C5. The object that \<open>fillRequestOptionDefaults\<close> builds first has the
  \<^verbatim>\<open>method\<close> of the caller's options when they supply that key, else the
  client's \<^verbatim>\<open>defaultMethod\<close> when it is set, else GET, and the \<^verbatim>\<open>url\<close> of
  the caller's options; a supplied key always overrides the default, and the
  resolution of the url leaves the method as it is.
\<close>

theorem C5_default_filling:
  "(method opts = Present m \<longrightarrow> method (newOptions opts clientOptions) = Present m)
   \<and> (has_key (method opts) \<longrightarrow> method (newOptions opts clientOptions) = method opts)
   \<and> (method opts = Absent \<and> defaultMethod clientOptions = Present d \<longrightarrow>
        method (newOptions opts clientOptions) = Present d)
   \<and> (method opts = Absent \<and> read (defaultMethod clientOptions) = None \<longrightarrow>
        method (newOptions opts clientOptions) = Present GET)
   \<and> url (newOptions opts clientOptions) = url opts
   \<and> (fillRequestOptionDefaults opts clientOptions = Inr f \<longrightarrow>
        method f = method (newOptions opts clientOptions)
        \<and> (hasProtocol (url opts) \<longrightarrow> url f = url opts))"
proof -
  have supplied: "has_key (method opts) \<longrightarrow> method (newOptions opts clientOptions) = method opts"
    by (cases "method opts") (simp_all add: newOptions_def)
  have present: "method opts = Present m \<longrightarrow> method (newOptions opts clientOptions) = Present m"
    by (simp add: newOptions_def)
  have default: "method opts = Absent \<and> defaultMethod clientOptions = Present d \<longrightarrow>
      method (newOptions opts clientOptions) = Present d"
    by (simp add: newOptions_def)
  have get: "method opts = Absent \<and> read (defaultMethod clientOptions) = None \<longrightarrow>
      method (newOptions opts clientOptions) = Present GET"
    by (simp add: newOptions_def)
  have u: "url (newOptions opts clientOptions) = url opts"
    by (simp add: newOptions_def)
  have filled: "fillRequestOptionDefaults opts clientOptions = Inr f \<longrightarrow>
      method f = method (newOptions opts clientOptions)
      \<and> (hasProtocol (url opts) \<longrightarrow> url f = url opts)"
    by (auto simp: fillRequestOptionDefaults_def u split: if_splits option.splits)
  from present supplied default get u filled show ?thesis
    by (intro conjI)
qed

theorem C5_default_filling_witness:
  "method (newOptions \<lparr>method = Present DELETE, url = ''http://h/a''\<rparr> post_options) = Present DELETE
   \<and> method (newOptions \<lparr>method = Absent, url = ''http://h/a''\<rparr> post_options) = Present POST
   \<and> method (newOptions \<lparr>method = Absent, url = ''http://h/a''\<rparr> api_options) = Present GET
   \<and> fillRequestOptionDefaults \<lparr>method = Absent, url = ''http://h/a''\<rparr> post_options =
       Inr \<lparr>method = Present POST, url = ''http://h/a''\<rparr>
   \<and> method \<lparr>method = Present POST, url = ''http://h/a''\<rparr> =
       method (newOptions \<lparr>method = Absent, url = ''http://h/a''\<rparr> post_options)"
proof -
  have filled: "fillRequestOptionDefaults \<lparr>method = Absent, url = ''http://h/a''\<rparr> post_options =
      Inr \<lparr>method = Present POST, url = ''http://h/a''\<rparr>"
    by (simp add: fillRequestOptionDefaults_def hasProtocol_def newOptions_def post_options_def)
  have supplied: "method \<lparr>method = Present DELETE, url = ''http://h/a''\<rparr> = Present DELETE"
    and absent: "method \<lparr>method = Absent, url = ''http://h/a''\<rparr> = Absent"
    and post: "defaultMethod post_options = Present POST"
    and unset: "read (defaultMethod api_options) = None"
    by (simp_all add: post_options_def api_options_def)
  have a: "method (newOptions \<lparr>method = Present DELETE, url = ''http://h/a''\<rparr> post_options)
      = Present DELETE"
    using supplied
      C5_default_filling [of "\<lparr>method = Present DELETE, url = ''http://h/a''\<rparr>" DELETE
        post_options POST "\<lparr>method = Present POST, url = ''http://h/a''\<rparr>"]
    by blast
  have b: "method (newOptions \<lparr>method = Absent, url = ''http://h/a''\<rparr> post_options)
      = Present POST"
    and e: "method \<lparr>method = Present POST, url = ''http://h/a''\<rparr> =
       method (newOptions \<lparr>method = Absent, url = ''http://h/a''\<rparr> post_options)"
    using absent post filled
      C5_default_filling [of "\<lparr>method = Absent, url = ''http://h/a''\<rparr>" DELETE
        post_options POST "\<lparr>method = Present POST, url = ''http://h/a''\<rparr>"]
    by blast+
  have c: "method (newOptions \<lparr>method = Absent, url = ''http://h/a''\<rparr> api_options)
      = Present GET"
    using absent unset
      C5_default_filling [of "\<lparr>method = Absent, url = ''http://h/a''\<rparr>" DELETE
        api_options POST "\<lparr>method = Present GET, url = ''http://h/a''\<rparr>"]
    by blast
  from a b c filled e show ?thesis
    by (intro conjI)
qed

text \<open>
  C10. When the caller's options hold the key \<^verbatim>\<open>method\<close> with the value
  \<^verbatim>\<open>undefined\<close>, the spread copies it over the default: the filled options hold
  \<^verbatim>\<open>method: undefined\<close>, whatever the client's \<^verbatim>\<open>defaultMethod\<close>, the
  transport is handed \<^verbatim>\<open>{ method: undefined }\<close>, and so does the
  \<^verbatim>\<open>requestOptions\<close> of a response.
\<close>

theorem C10_explicit_undefined_method:
  assumes "method opts = Undefined"
  shows "method (newOptions opts clientOptions) = Undefined
       \<and> (fillRequestOptionDefaults opts clientOptions = Inr f \<longrightarrow>
            method f = Undefined \<and> read (method f) = None)
       \<and> (request this opts w = (Inr (Fulfilled response), w') \<longrightarrow>
            method (requestOptions response) = Undefined)"
proof -
  have new: "method (newOptions opts clientOptions) = Undefined"
    using assms by (rule newOptions_method_Undefined)
  have filled: "fillRequestOptionDefaults opts clientOptions = Inr f \<longrightarrow>
      method f = Undefined \<and> read (method f) = None"
    using fill_method [of opts clientOptions f] new by simp
  have answered: "request this opts w = (Inr (Fulfilled response), w') \<longrightarrow>
      method (requestOptions response) = Undefined"
  proof
    assume "request this opts w = (Inr (Fulfilled response), w')"
    from request_Fulfilled [OF this] obtain g internalResponse where
      g: "fillRequestOptionDefaults opts (options this) = Inr g"
      and "requestFn this (url g) \<lparr>internal_method = read (method g)\<rparr> JsUndefined
        (hasSecureProtocol (url g)) w = (Fulfilled internalResponse, w')"
      and r: "response = assemble g internalResponse"
      by blast
    have "method g = Undefined"
      using fill_method [OF g] newOptions_method_Undefined [OF assms, of "options this"]
      by simp
    then show "method (requestOptions response) = Undefined"
      using r by simp
  qed
  from new filled answered show ?thesis
    by (intro conjI)
qed

theorem C10_explicit_undefined_method_witness:
  "method \<lparr>method = Undefined, url = ''/x''\<rparr> = Undefined
   \<and> fillRequestOptionDefaults \<lparr>method = Undefined, url = ''/x''\<rparr> post_options =
       Inr \<lparr>method = Undefined, url = ''https://api.example.com/x''\<rparr>
   \<and> request \<lparr>options = post_options, requestFn = asyncRequest hello_node\<rparr>
        \<lparr>method = Undefined, url = ''/x''\<rparr> [] =
       (Inr (Fulfilled \<lparr> headers = Map.empty, rawData = ''hello'', statusCode = 200,
                          statusMessage = ''OK'', trailers = Map.empty, others = Map.empty,
                          requestOptions =
                            \<lparr>method = Undefined, url = ''https://api.example.com/x''\<rparr> \<rparr>),
        [(True, ''https://api.example.com/x'', \<lparr>internal_method = None\<rparr>, None)])
   \<and> method (requestOptions
        \<lparr> headers = Map.empty, rawData = ''hello'', statusCode = 200,
          statusMessage = ''OK'', trailers = Map.empty, others = Map.empty,
          requestOptions = \<lparr>method = Undefined, url = ''https://api.example.com/x''\<rparr> \<rparr>)
       = Undefined"
proof -
  have explicit: "method \<lparr>method = Undefined, url = ''/x''\<rparr> = Undefined"
    by simp
  have filled: "fillRequestOptionDefaults \<lparr>method = Undefined, url = ''/x''\<rparr> post_options =
      Inr \<lparr>method = Undefined, url = ''https://api.example.com/x''\<rparr>"
    by (simp add: fill_relative [where b = "''https://api.example.com''"] hasProtocol_def
        post_options_def spec_resolved_url_def strip_trailing_slashes_def
        strip_leading_slashes_def is_slash_def newOptions_def)
  have answered: "request \<lparr>options = post_options, requestFn = asyncRequest hello_node\<rparr>
        \<lparr>method = Undefined, url = ''/x''\<rparr> [] =
       (Inr (Fulfilled \<lparr> headers = Map.empty, rawData = ''hello'', statusCode = 200,
                          statusMessage = ''OK'', trailers = Map.empty, others = Map.empty,
                          requestOptions =
                            \<lparr>method = Undefined, url = ''https://api.example.com/x''\<rparr> \<rparr>),
        [(True, ''https://api.example.com/x'', \<lparr>internal_method = None\<rparr>, None)])"
    by (simp add: request_def filled hello_transport hasSecureProtocol_def)
  show ?thesis
    using explicit filled answered
      C10_explicit_undefined_method [OF explicit, of post_options
        "\<lparr>method = Undefined, url = ''https://api.example.com/x''\<rparr>"
        "\<lparr>options = post_options, requestFn = asyncRequest hello_node\<rparr>" "[]"]
    by simp
qed

section \<open>Transport errors\<close>

lemma handle_settled:
  "settled c \<noteq> Pending \<Longrightarrow> settled (handle body c ev) = settled c"
  by (cases ev; cases "settled c") (simp_all split: option.splits)

lemma foldl_handle_settled:
  "settled c \<noteq> Pending \<Longrightarrow> settled (foldl (handle body) c evs) = settled c"
proof (induction evs arbitrary: c)
  case Nil
  show ?case by simp
next
  case (Cons ev evs)
  have "settled (handle body c ev) \<noteq> Pending"
    using Cons.prems by (simp add: handle_settled)
  from Cons.IH [OF this] show ?case
    using Cons.prems by (simp add: handle_settled)
qed

lemma handle_result:
  "result c \<noteq> None \<Longrightarrow> result (handle body c ev) \<noteq> None"
  by (cases ev) (auto split: option.splits)

lemma foldl_handle_result:
  "result c \<noteq> None \<or> OnResponse \<in> set evs \<Longrightarrow>
     result (foldl (handle body) c evs) \<noteq> None"
proof (induction evs arbitrary: c)
  case Nil
  then show ?case by simp
next
  case (Cons ev evs)
  have "result (handle body c ev) \<noteq> None \<or> OnResponse \<in> set evs"
  proof (cases "ev = OnResponse")
    case True
    then show ?thesis by simp
  next
    case False
    then show ?thesis using Cons.prems handle_result [of c body ev] by auto
  qed
  from Cons.IH [OF this] show ?case by simp
qed

lemma asyncRequest_rejects:
  assumes events: "(if secure then requestHttps node else requestHttp node) u opts
      (if \<not> is_nullish body then Some body else None) w = (pre @ ev # post, w')"
    and pending: "settled (foldl (handle body) \<lparr>settled = Pending, result = None\<rparr> pre) = Pending"
    and error: "ev = OnRequestError E \<or> ev = OnResponseError E \<and> OnResponse \<in> set pre"
  shows "asyncRequest node u opts body secure w = (Rejected E, w')"
proof -
  define c where "c = foldl (handle body) \<lparr>settled = Pending, result = None\<rparr> pre"
  have "settled (handle body c ev) = Rejected E"
  proof (cases "ev = OnRequestError E")
    case True
    then show ?thesis using pending by (simp add: c_def)
  next
    case False
    then have ev: "ev = OnResponseError E" and "OnResponse \<in> set pre"
      using error by simp_all
    then have "result c \<noteq> None"
      unfolding c_def by (intro foldl_handle_result) simp
    then show ?thesis using pending ev by (auto simp: c_def)
  qed
  then have "settled (foldl (handle body) (handle body c ev) post) = Rejected E"
    by (simp add: foldl_handle_settled)
  then have "settled (foldl (handle body) \<lparr>settled = Pending, result = None\<rparr> (pre @ ev # post))
      = Rejected E"
    by (simp add: c_def)
  then show ?thesis
    using events by (simp add: asyncRequest_def)
qed

text \<open>
  C9. When the transport function of the client, called for this request,
  returns a promise rejected with \<open>E\<close>, the promise of \<^verbatim>\<open>request\<close> is
  rejected with \<open>E\<close> itself, after that one call (the world is the one the
  call left), and is not fulfilled with any response. In \<open>asyncRequest\<close>, the
  first \<^verbatim>\<open>error\<close> event of the request, or of the response once the response
  callback has run, rejects the pending promise with the event's error,
  whatever was received before and whatever follows.
\<close>

theorem C9_transport_rejection:
  assumes "fillRequestOptionDefaults opts (options this) = Inr f"
    and "requestFn this (url f) \<lparr>internal_method = read (method f)\<rparr> JsUndefined
           (hasSecureProtocol (url f)) w = (Rejected E, w')"
  shows "request this opts w = (Inr (Rejected E), w')
       \<and> (\<nexists>response v. request this opts w = (Inr (Fulfilled response), v))
       \<and> ((if secure then requestHttps node else requestHttp node) u internalOptions
              (if \<not> is_nullish body then Some body else None) x = (pre @ ev # post, x')
            \<and> settled (foldl (handle body) \<lparr>settled = Pending, result = None\<rparr> pre) = Pending
            \<and> (ev = OnRequestError E' \<or> ev = OnResponseError E' \<and> OnResponse \<in> set pre)
            \<longrightarrow> asyncRequest node u internalOptions body secure x = (Rejected E', x'))"
proof -
  have rejected: "request this opts w = (Inr (Rejected E), w')"
    using assms by (simp add: request_filled)
  then have unanswered: "\<nexists>response v. request this opts w = (Inr (Fulfilled response), v)"
    by simp
  have base: "(if secure then requestHttps node else requestHttp node) u internalOptions
              (if \<not> is_nullish body then Some body else None) x = (pre @ ev # post, x')
            \<and> settled (foldl (handle body) \<lparr>settled = Pending, result = None\<rparr> pre) = Pending
            \<and> (ev = OnRequestError E' \<or> ev = OnResponseError E' \<and> OnResponse \<in> set pre)
            \<longrightarrow> asyncRequest node u internalOptions body secure x = (Rejected E', x')"
    using asyncRequest_rejects [of secure node u internalOptions body x pre ev post x' E']
    by blast
  from rejected unanswered base show ?thesis
    by (intro conjI)
qed

theorem C9_transport_rejection_witness:
  "fillRequestOptionDefaults \<lparr>method = Absent, url = ''http://h/a''\<rparr>
      (options \<lparr>options = no_options, requestFn = asyncRequest broken_node\<rparr>) =
     Inr \<lparr>method = Present GET, url = ''http://h/a''\<rparr>
   \<and> requestHttp broken_node ''http://h/a'' \<lparr>internal_method = Some GET\<rparr> None [] =
       ([OnResponse, OnData ''par''] @ OnResponseError (JsOther ''ECONNRESET'')
          # [OnData ''tial'', OnEnd ok_message, OnRequestError (JsOther ''EPIPE'')],
        [(False, ''http://h/a'', \<lparr>internal_method = Some GET\<rparr>, None)])
   \<and> settled (foldl (handle (JsUndefined :: string js_value))
        \<lparr>settled = Pending, result = None\<rparr> [OnResponse, OnData ''par'']) = Pending
   \<and> asyncRequest broken_node ''http://h/a'' \<lparr>internal_method = Some GET\<rparr> JsUndefined False [] =
       (Rejected (JsOther ''ECONNRESET''),
        [(False, ''http://h/a'', \<lparr>internal_method = Some GET\<rparr>, None)])
   \<and> request \<lparr>options = no_options, requestFn = asyncRequest broken_node\<rparr>
        \<lparr>method = Absent, url = ''http://h/a''\<rparr> [] =
       (Inr (Rejected (JsOther ''ECONNRESET'')),
        [(False, ''http://h/a'', \<lparr>internal_method = Some GET\<rparr>, None)])"
proof -
  have filled: "fillRequestOptionDefaults \<lparr>method = Absent, url = ''http://h/a''\<rparr>
      (options \<lparr>options = no_options, requestFn = asyncRequest broken_node\<rparr>) =
     Inr \<lparr>method = Present GET, url = ''http://h/a''\<rparr>"
    by (simp add: fillRequestOptionDefaults_def hasProtocol_def newOptions_def no_options_def)
  have events: "(if False then requestHttps broken_node else requestHttp broken_node)
        ''http://h/a'' \<lparr>internal_method = Some GET\<rparr>
        (if \<not> is_nullish (JsUndefined :: string js_value) then Some JsUndefined else None) [] =
       ([OnResponse, OnData ''par''] @ OnResponseError (JsOther ''ECONNRESET'')
          # [OnData ''tial'', OnEnd ok_message, OnRequestError (JsOther ''EPIPE'')],
        [(False, ''http://h/a'', \<lparr>internal_method = Some GET\<rparr>, None)])"
    by (simp add: broken_node_def)
  have pending: "settled (foldl (handle (JsUndefined :: string js_value))
      \<lparr>settled = Pending, result = None\<rparr> [OnResponse, OnData ''par'']) = Pending"
    by simp
  have error: "OnResponseError (JsOther ''ECONNRESET'') = OnRequestError (JsOther ''ECONNRESET'')
      \<or> OnResponseError (JsOther ''ECONNRESET'') = OnResponseError (JsOther ''ECONNRESET'')
        \<and> OnResponse \<in> set [OnResponse, OnData ''par'']"
    by simp
  have call: "requestFn \<lparr>options = no_options, requestFn = asyncRequest broken_node\<rparr>
      (url \<lparr>method = Present GET, url = ''http://h/a''\<rparr>)
      \<lparr>internal_method = read (method \<lparr>method = Present GET, url = ''http://h/a''\<rparr>)\<rparr>
      JsUndefined (hasSecureProtocol (url \<lparr>method = Present GET, url = ''http://h/a''\<rparr>)) [] =
      (Rejected (JsOther ''ECONNRESET''),
       [(False, ''http://h/a'', \<lparr>internal_method = Some GET\<rparr>, None)])"
    by (simp add: asyncRequest_def broken_node_def hasSecureProtocol_def ok_message_def)
  note inst = C9_transport_rejection [OF filled call,
      where secure = False and node = broken_node and u = "''http://h/a''"
        and internalOptions = "\<lparr>internal_method = Some GET\<rparr>"
        and body = JsUndefined and x = "[]" and pre = "[OnResponse, OnData ''par'']"
        and ev = "OnResponseError (JsOther ''ECONNRESET'')"
        and post = "[OnData ''tial'', OnEnd ok_message, OnRequestError (JsOther ''EPIPE'')]"
        and x' = "[(False, ''http://h/a'', \<lparr>internal_method = Some GET\<rparr>, None)]"
        and E' = "JsOther ''ECONNRESET''"]
  have base: "asyncRequest broken_node ''http://h/a'' \<lparr>internal_method = Some GET\<rparr>
      JsUndefined False [] =
      (Rejected (JsOther ''ECONNRESET''),
       [(False, ''http://h/a'', \<lparr>internal_method = Some GET\<rparr>, None)])"
    using inst events pending error by blast
  have whole: "request \<lparr>options = no_options, requestFn = asyncRequest broken_node\<rparr>
        \<lparr>method = Absent, url = ''http://h/a''\<rparr> [] =
       (Inr (Rejected (JsOther ''ECONNRESET'')),
        [(False, ''http://h/a'', \<lparr>internal_method = Some GET\<rparr>, None)])"
    using inst by blast
  have events': "requestHttp broken_node ''http://h/a'' \<lparr>internal_method = Some GET\<rparr> None [] =
       ([OnResponse, OnData ''par''] @ OnResponseError (JsOther ''ECONNRESET'')
          # [OnData ''tial'', OnEnd ok_message, OnRequestError (JsOther ''EPIPE'')],
        [(False, ''http://h/a'', \<lparr>internal_method = Some GET\<rparr>, None)])"
    using events by simp
  from filled events' pending base whole show ?thesis
    by (intro conjI)
qed

section \<open>Secure and plain transport\<close>

text \<open>
  C6, as the specification states it, fails: the limiter is part of the
  client's configuration and its wrapper stands between \<^verbatim>\<open>request\<close> and
  \<open>asyncRequest\<close>. On a client constructed with a limiter whose wrapper passes
  the opposite flag on, the request for \<^verbatim>\<open>https://h/x\<close> is made through
  \<^verbatim>\<open>http.request\<close>.
\<close>

theorem C6_limiter_reroutes_counterexample:
  "new_WebClient hello_node flip_options =
     Inr \<lparr>options = flip_options, requestFn = flip_secure (asyncRequest hello_node)\<rparr>
   \<and> fillRequestOptionDefaults \<lparr>method = Absent, url = ''https://h/x''\<rparr> flip_options =
       Inr \<lparr>method = Present GET, url = ''https://h/x''\<rparr>
   \<and> hasSecureProtocol ''https://h/x''
   \<and> request \<lparr>options = flip_options, requestFn = flip_secure (asyncRequest hello_node)\<rparr>
        \<lparr>method = Absent, url = ''https://h/x''\<rparr> [] =
       (Inr (Fulfilled (assemble \<lparr>method = Present GET, url = ''https://h/x''\<rparr> hello_response)),
        [(False, ''https://h/x'', \<lparr>internal_method = Some GET\<rparr>, None)])"
proof -
  have built: "new_WebClient hello_node flip_options =
      Inr \<lparr>options = flip_options, requestFn = flip_secure (asyncRequest hello_node)\<rparr>"
    by (simp add: new_WebClient_def flip_options_def)
  have filled: "fillRequestOptionDefaults \<lparr>method = Absent, url = ''https://h/x''\<rparr> flip_options =
      Inr \<lparr>method = Present GET, url = ''https://h/x''\<rparr>"
    by (simp add: fillRequestOptionDefaults_def hasProtocol_def newOptions_def flip_options_def)
  have secure: "hasSecureProtocol ''https://h/x''"
    by (simp add: hasSecureProtocol_def)
  have routed: "request
        \<lparr>options = flip_options, requestFn = flip_secure (asyncRequest hello_node)\<rparr>
        \<lparr>method = Absent, url = ''https://h/x''\<rparr> [] =
       (Inr (Fulfilled (assemble \<lparr>method = Present GET, url = ''https://h/x''\<rparr> hello_response)),
        [(False, ''https://h/x'', \<lparr>internal_method = Some GET\<rparr>, None)])"
    by (simp add: request_def filled secure flip_secure_def hello_transport hello_response_def)
  from built filled secure routed show ?thesis
    by (intro conjI)
qed

text \<open>
  C6, amended. \<^verbatim>\<open>request\<close> hands its transport function the flag "the
  resolved url starts with \<^verbatim>\<open>https:\<close>", computed from the resolved url and
  nothing else; two clients of the same transport function whose requests
  resolve to the same filled options behave alike, whatever their
  configuration. \<open>asyncRequest\<close> calls \<^verbatim>\<open>https.request\<close> when the flag is true
  and \<^verbatim>\<open>http.request\<close> when it is false. So on a client constructed without
  limiter, whatever the caller has done to the options object since, a
  resolved url starting with \<^verbatim>\<open>https:\<close> goes through \<^verbatim>\<open>https.request\<close> and
  every other one through \<^verbatim>\<open>http.request\<close>. With a limiter, the route is what
  its wrapper makes of the flag.
\<close>

theorem C6_secure_by_url_scheme:
  assumes "fillRequestOptionDefaults opts (options this) = Inr f"
  shows "request this opts w =
           (case requestFn this (url f) \<lparr>internal_method = read (method f)\<rparr> JsUndefined
                   (take 6 (url f) = ''https:'') w of
              (p, w') \<Rightarrow> (Inr (await_then p (assemble f)), w'))
       \<and> (fillRequestOptionDefaults opts' (options this') = Inr f
            \<and> requestFn this' = requestFn this \<longrightarrow>
            request this' opts' w = request this opts w)
       \<and> asyncRequest node u internalOptions body True x =
           (case requestHttps node u internalOptions
                   (if \<not> is_nullish body then Some body else None) x of
              (events, x') \<Rightarrow>
                (settled (foldl (handle body) \<lparr>settled = Pending, result = None\<rparr> events), x'))
       \<and> asyncRequest node u internalOptions body False x =
           (case requestHttp node u internalOptions
                   (if \<not> is_nullish body then Some body else None) x of
              (events, x') \<Rightarrow>
                (settled (foldl (handle body) \<lparr>settled = Pending, result = None\<rparr> events), x'))
       \<and> (new_WebClient_at node s a = Inr i \<and> read (limiter (s a)) = None
            \<and> object_state s' i = this \<longrightarrow>
            request_at s' i opts w =
              (case (if take 6 (url f) = ''https:'' then requestHttps node else requestHttp node)
                      (url f) \<lparr>internal_method = read (method f)\<rparr> None w of
                 (events, w') \<Rightarrow>
                   (Inr (await_then
                           (settled (foldl (handle JsUndefined)
                                       \<lparr>settled = Pending, result = None\<rparr> events))
                           (assemble f)), w')))"
proof -
  have flag: "request this opts w =
      (case requestFn this (url f) \<lparr>internal_method = read (method f)\<rparr> JsUndefined
              (take 6 (url f) = ''https:'') w of
         (p, w') \<Rightarrow> (Inr (await_then p (assemble f)), w'))"
    using request_filled [OF assms] by (simp add: hasSecureProtocol_def)
  have same: "fillRequestOptionDefaults opts' (options this') = Inr f
      \<and> requestFn this' = requestFn this \<longrightarrow> request this' opts' w = request this opts w"
    using request_filled [of opts' this' f w] request_filled [OF assms, of w] by simp
  have secure: "asyncRequest node u internalOptions body True x =
      (case requestHttps node u internalOptions
              (if \<not> is_nullish body then Some body else None) x of
         (events, x') \<Rightarrow>
           (settled (foldl (handle body) \<lparr>settled = Pending, result = None\<rparr> events), x'))"
    by (simp add: asyncRequest_def)
  have plain: "asyncRequest node u internalOptions body False x =
      (case requestHttp node u internalOptions
              (if \<not> is_nullish body then Some body else None) x of
         (events, x') \<Rightarrow>
           (settled (foldl (handle body) \<lparr>settled = Pending, result = None\<rparr> events), x'))"
    by (simp add: asyncRequest_def)
  have direct: "new_WebClient_at node s a = Inr i \<and> read (limiter (s a)) = None
      \<and> object_state s' i = this \<longrightarrow>
      request_at s' i opts w =
        (case (if take 6 (url f) = ''https:'' then requestHttps node else requestHttp node)
                (url f) \<lparr>internal_method = read (method f)\<rparr> None w of
           (events, w') \<Rightarrow>
             (Inr (await_then
                     (settled (foldl (handle JsUndefined)
                                 \<lparr>settled = Pending, result = None\<rparr> events))
                     (assemble f)), w'))"
  proof
    assume built: "new_WebClient_at node s a = Inr i \<and> read (limiter (s a)) = None
      \<and> object_state s' i = this"
    then have "object_requestFn i = asyncRequest node"
      using new_WebClient_at_Inr [of node s a i] by simp
    then have t: "requestFn this = asyncRequest node"
      using built by auto
    have "request_at s' i opts w = request this opts w"
      using built by (simp add: request_at_def)
    then show "request_at s' i opts w =
        (case (if take 6 (url f) = ''https:'' then requestHttps node else requestHttp node)
                (url f) \<lparr>internal_method = read (method f)\<rparr> None w of
           (events, w') \<Rightarrow>
             (Inr (await_then
                     (settled (foldl (handle JsUndefined)
                                 \<lparr>settled = Pending, result = None\<rparr> events))
                     (assemble f)), w'))"
      unfolding flag t by (simp add: asyncRequest_def split: prod.splits)
  qed
  from flag same secure plain direct show ?thesis
    by (intro conjI)
qed

theorem C6_secure_by_url_scheme_witness:
  "fillRequestOptionDefaults \<lparr>method = Absent, url = ''/x''\<rparr>
      (options (object_state api_store
         \<lparr>options_at = 0, object_requestFn = asyncRequest hello_node\<rparr>)) =
     Inr \<lparr>method = Present GET, url = ''https://api.example.com/x''\<rparr>
   \<and> fillRequestOptionDefaults \<lparr>method = Absent, url = ''http://h/x''\<rparr>
      (options (object_state api_store
         \<lparr>options_at = 0, object_requestFn = asyncRequest hello_node\<rparr>)) =
     Inr \<lparr>method = Present GET, url = ''http://h/x''\<rparr>
   \<and> new_WebClient_at hello_node api_store 0 =
       Inr \<lparr>options_at = 0, object_requestFn = asyncRequest hello_node\<rparr>
   \<and> read (limiter (api_store 0)) = None
   \<and> snd (request_at api_store \<lparr>options_at = 0, object_requestFn = asyncRequest hello_node\<rparr>
             \<lparr>method = Absent, url = ''/x''\<rparr> []) =
       [(True, ''https://api.example.com/x'', \<lparr>internal_method = Some GET\<rparr>, None)]
   \<and> snd (request_at api_store \<lparr>options_at = 0, object_requestFn = asyncRequest hello_node\<rparr>
             \<lparr>method = Absent, url = ''http://h/x''\<rparr> []) =
       [(False, ''http://h/x'', \<lparr>internal_method = Some GET\<rparr>, None)]"
proof -
  let ?i = "\<lparr>options_at = 0, object_requestFn = asyncRequest hello_node\<rparr>"
  have secure: "fillRequestOptionDefaults \<lparr>method = Absent, url = ''/x''\<rparr>
      (options (object_state api_store ?i)) =
     Inr \<lparr>method = Present GET, url = ''https://api.example.com/x''\<rparr>"
    by (simp add: api_store_def api_fill)
  have plain: "fillRequestOptionDefaults \<lparr>method = Absent, url = ''http://h/x''\<rparr>
      (options (object_state api_store ?i)) =
     Inr \<lparr>method = Present GET, url = ''http://h/x''\<rparr>"
    by (simp add: api_store_def fillRequestOptionDefaults_def hasProtocol_def newOptions_def
          api_options_def)
  have built: "new_WebClient_at hello_node api_store 0 = Inr ?i"
    by (simp add: new_WebClient_at_def api_store_def api_client)
  have unlimited: "read (limiter (api_store 0)) = None"
    by (simp add: api_store_def api_options_def)
  have a: "snd (request_at api_store ?i \<lparr>method = Absent, url = ''/x''\<rparr> []) =
       [(True, ''https://api.example.com/x'', \<lparr>internal_method = Some GET\<rparr>, None)]"
    using C6_secure_by_url_scheme [OF secure, where node = hello_node and s = api_store
        and a = 0 and i = ?i and s' = api_store and w = "[]"] built unlimited
    by (simp add: hello_node_def)
  have b: "snd (request_at api_store ?i \<lparr>method = Absent, url = ''http://h/x''\<rparr> []) =
       [(False, ''http://h/x'', \<lparr>internal_method = Some GET\<rparr>, None)]"
    using C6_secure_by_url_scheme [OF plain, where node = hello_node and s = api_store
        and a = 0 and i = ?i and s' = api_store and w = "[]"] built unlimited
    by (simp add: hello_node_def)
  from secure plain built unlimited a b show ?thesis
    by (intro conjI)
qed

section \<open>Absolute URLs\<close>

lemma strip_trailing_append:
  assumes "p \<noteq> []" and "\<not> is_slash (last p)"
  shows "strip_trailing_slashes (p @ r) = p @ strip_trailing_slashes r"
proof -
  have "dropWhile is_slash (rev p) = rev p"
    using assms by (cases p rule: rev_cases) simp_all
  then show ?thesis
    by (simp add: strip_trailing_slashes_def dropWhile_append)
qed

lemma take_eq_prefix:
  assumes "length p = n"
  shows "take n u = p \<longleftrightarrow> (\<exists>r. u = p @ r)"
proof
  assume "take n u = p"
  then have "u = p @ drop n u"
    using append_take_drop_id [of n u] by simp
  then show "\<exists>r. u = p @ r" ..
next
  assume "\<exists>r. u = p @ r"
  then show "take n u = p" using assms by auto
qed

lemma hasProtocol_iff:
  "hasProtocol u \<longleftrightarrow> (\<exists>r. u = ''http:'' @ r) \<or> (\<exists>r. u = ''https:'' @ r)"
proof -
  have "take 5 u = ''http:'' \<longleftrightarrow> (\<exists>r. u = ''http:'' @ r)"
    by (rule take_eq_prefix) simp
  moreover have "take 6 u = ''https:'' \<longleftrightarrow> (\<exists>r. u = ''https:'' @ r)"
    by (rule take_eq_prefix) simp
  ultimately show ?thesis
    by (simp only: hasProtocol_def)
qed

lemma hasProtocol_resolved:
  assumes "hasProtocol b"
  shows "hasProtocol (strip_trailing_slashes b @ t)"
proof -
  from assms consider r where "b = ''http:'' @ r" | r where "b = ''https:'' @ r"
    unfolding hasProtocol_iff by blast
  then show ?thesis
  proof cases
    case 1
    have "strip_trailing_slashes (''http:'' @ r) = ''http:'' @ strip_trailing_slashes r"
      by (rule strip_trailing_append) (simp_all add: is_slash_def)
    then have "strip_trailing_slashes b @ t = ''http:'' @ (strip_trailing_slashes r @ t)"
      using 1 by simp
    then show ?thesis
      unfolding hasProtocol_iff by blast
  next
    case 2
    have "strip_trailing_slashes (''https:'' @ r) = ''https:'' @ strip_trailing_slashes r"
      by (rule strip_trailing_append) (simp_all add: is_slash_def)
    then have "strip_trailing_slashes b @ t = ''https:'' @ (strip_trailing_slashes r @ t)"
      using 2 by simp
    then show ?thesis
      unfolding hasProtocol_iff by blast
  qed
qed

lemma fill_url_absolute:
  assumes valid: "\<And>b. read (baseUrl clientOptions) = Some b \<Longrightarrow> hasProtocol b"
    and filled: "fillRequestOptionDefaults opts clientOptions = Inr f"
  shows "hasProtocol (url f)
       \<and> (hasProtocol (url opts) \<longrightarrow> url f = url opts)
       \<and> (\<not> hasProtocol (url opts) \<longrightarrow>
            (\<exists>b. read (baseUrl clientOptions) = Some b \<and> hasProtocol b
               \<and> url f = strip_trailing_slashes b @ ''/'' @ strip_leading_slashes (url opts)))"
proof (cases "hasProtocol (url opts)")
  case True
  then have "f = newOptions opts clientOptions"
    using filled by (simp add: fill_absolute)
  then show ?thesis
    using True by (simp add: newOptions_def)
next
  case False
  show ?thesis
  proof (cases "read (baseUrl clientOptions)")
    case None
    then show ?thesis
      using False filled by (simp add: fill_no_baseUrl)
  next
    case (Some b)
    then have "url f = strip_trailing_slashes b @ ''/'' @ strip_leading_slashes (url opts)"
      using False filled by (auto simp: fill_relative spec_resolved_url_def)
    then show ?thesis
      using False Some valid [OF Some] hasProtocol_resolved [of b]
      by simp
  qed
qed

lemma request_url_absolute:
  assumes valid: "\<And>b. read (baseUrl (options this)) = Some b \<Longrightarrow> hasProtocol b"
    and answered: "request this opts w = (Inr (Fulfilled response), w')"
  shows "hasProtocol (url (requestOptions response))
       \<and> (hasProtocol (url opts) \<longrightarrow> url (requestOptions response) = url opts)
       \<and> (\<not> hasProtocol (url opts) \<longrightarrow>
            (\<exists>b. read (baseUrl (options this)) = Some b \<and> hasProtocol b
               \<and> url (requestOptions response) =
                   strip_trailing_slashes b @ ''/'' @ strip_leading_slashes (url opts)))"
proof -
  from request_Fulfilled [OF answered] obtain f internalResponse where
    f: "fillRequestOptionDefaults opts (options this) = Inr f"
    and "requestFn this (url f) \<lparr>internal_method = read (method f)\<rparr> JsUndefined
        (hasSecureProtocol (url f)) w = (Fulfilled internalResponse, w')"
    and r: "response = assemble f internalResponse"
    by blast
  have "requestOptions response = f"
    using r by simp
  then show ?thesis
    using fill_url_absolute [of "options this" opts f, OF valid] f by simp
qed

text \<open>
  C8, as the specification states it, fails: the constructor keeps the
  caller's options object and checks its \<^verbatim>\<open>baseUrl\<close> once. After the caller
  assigns \<^verbatim>\<open>ftp://files.example.com/\<close> to the \<^verbatim>\<open>baseUrl\<close> of the object that
  a client was constructed with, the request for \<^verbatim>\<open>/x\<close> on that client is
  fulfilled with a \<^verbatim>\<open>requestOptions.url\<close> without protocol.
\<close>

theorem C8_changed_baseUrl_counterexample:
  "new_WebClient_at hello_node api_store 0 =
     Inr \<lparr>options_at = 0, object_requestFn = asyncRequest hello_node\<rparr>
   \<and> request_at (assign_baseUrl api_store 0 ''ftp://files.example.com/'')
        \<lparr>options_at = 0, object_requestFn = asyncRequest hello_node\<rparr>
        \<lparr>method = Absent, url = ''/x''\<rparr> [] =
       (Inr (Fulfilled
          (assemble \<lparr>method = Present GET, url = ''ftp://files.example.com/x''\<rparr> hello_response)),
        [(False, ''ftp://files.example.com/x'', \<lparr>internal_method = Some GET\<rparr>, None)])
   \<and> url (requestOptions
        (assemble \<lparr>method = Present GET, url = ''ftp://files.example.com/x''\<rparr> hello_response))
       = ''ftp://files.example.com/x''
   \<and> \<not> hasProtocol ''ftp://files.example.com/x''"
proof -
  have built: "new_WebClient_at hello_node api_store 0 =
      Inr \<lparr>options_at = 0, object_requestFn = asyncRequest hello_node\<rparr>"
    by (simp add: new_WebClient_at_def api_store_def api_client)
  have filled: "fillRequestOptionDefaults \<lparr>method = Absent, url = ''/x''\<rparr>
      (api_options\<lparr>baseUrl := Present ''ftp://files.example.com/''\<rparr>) =
      Inr \<lparr>method = Present GET, url = ''ftp://files.example.com/x''\<rparr>"
    by (simp add: fill_relative [where b = "''ftp://files.example.com/''"] hasProtocol_def
        api_options_def spec_resolved_url_def strip_trailing_slashes_def
        strip_leading_slashes_def is_slash_def newOptions_def)
  have answered: "request_at (assign_baseUrl api_store 0 ''ftp://files.example.com/'')
        \<lparr>options_at = 0, object_requestFn = asyncRequest hello_node\<rparr>
        \<lparr>method = Absent, url = ''/x''\<rparr> [] =
       (Inr (Fulfilled
          (assemble \<lparr>method = Present GET, url = ''ftp://files.example.com/x''\<rparr> hello_response)),
        [(False, ''ftp://files.example.com/x'', \<lparr>internal_method = Some GET\<rparr>, None)])"
    by (simp add: request_at_def object_state_def assign_baseUrl_def api_store_def request_def
          filled hello_transport hasSecureProtocol_def hello_response_def)
  have u: "url (requestOptions
        (assemble \<lparr>method = Present GET, url = ''ftp://files.example.com/x''\<rparr> hello_response))
       = ''ftp://files.example.com/x''"
    by simp
  have relative: "\<not> hasProtocol ''ftp://files.example.com/x''"
    by (simp add: hasProtocol_def)
  from built answered u relative show ?thesis
    by (intro conjI)
qed

text \<open>
  C8, amended. On a constructed client whose options object holds, when the
  request is made, the \<^verbatim>\<open>baseUrl\<close> it was constructed with, or another one
  that starts with \<^verbatim>\<open>http:\<close> or \<^verbatim>\<open>https:\<close>, or none, the
  \<^verbatim>\<open>requestOptions.url\<close> of every response has a protocol: it is the
  caller's url when that has one, and otherwise the url resolved against that
  \<^verbatim>\<open>baseUrl\<close>, which is set and has a protocol.
\<close>

theorem C8_response_url_absolute:
  assumes "new_WebClient_at node s a = Inr i"
    and "baseUrl (s' a) = baseUrl (s a)
         \<or> (case read (baseUrl (s' a)) of None \<Rightarrow> True | Some b \<Rightarrow> hasProtocol b)"
    and "request_at s' i opts w = (Inr (Fulfilled response), w')"
  shows "hasProtocol (url (requestOptions response))
       \<and> (hasProtocol (url opts) \<longrightarrow> url (requestOptions response) = url opts)
       \<and> (\<not> hasProtocol (url opts) \<longrightarrow>
            (\<exists>b. read (baseUrl (s' a)) = Some b \<and> hasProtocol b
               \<and> url (requestOptions response) =
                   strip_trailing_slashes b @ ''/'' @ strip_leading_slashes (url opts)))"
proof -
  have at: "options_at i = a"
    and checked: "\<And>b. read (baseUrl (s a)) = Some b \<Longrightarrow> hasProtocol b"
    using new_WebClient_at_Inr [OF assms(1)] by simp_all
  have valid: "hasProtocol b" if "read (baseUrl (options (object_state s' i))) = Some b" for b
    using assms(2) that checked [of b] by (auto simp: at)
  have "request (object_state s' i) opts w = (Inr (Fulfilled response), w')"
    using assms(3) by (simp add: request_at_def)
  from request_url_absolute [OF valid this] show ?thesis
    by (simp add: at)
qed

theorem C8_response_url_absolute_witness:
  "new_WebClient_at hello_node api_store 0 =
     Inr \<lparr>options_at = 0, object_requestFn = asyncRequest hello_node\<rparr>
   \<and> (case read (baseUrl (assign_baseUrl api_store 0 ''http://mirror.example.com/'' 0)) of
         None \<Rightarrow> True | Some b \<Rightarrow> hasProtocol b)
   \<and> request_at (assign_baseUrl api_store 0 ''http://mirror.example.com/'')
        \<lparr>options_at = 0, object_requestFn = asyncRequest hello_node\<rparr>
        \<lparr>method = Present PUT, url = ''//v1/items''\<rparr> [] =
       (Inr (Fulfilled
          (assemble \<lparr>method = Present PUT, url = ''http://mirror.example.com/v1/items''\<rparr>
             hello_response)),
        [(False, ''http://mirror.example.com/v1/items'', \<lparr>internal_method = Some PUT\<rparr>, None)])
   \<and> hasProtocol ''http://mirror.example.com/v1/items''"
proof -
  have built: "new_WebClient_at hello_node api_store 0 =
      Inr \<lparr>options_at = 0, object_requestFn = asyncRequest hello_node\<rparr>"
    by (simp add: new_WebClient_at_def api_store_def api_client)
  have still: "(case read (baseUrl (assign_baseUrl api_store 0 ''http://mirror.example.com/'' 0)) of
         None \<Rightarrow> True | Some b \<Rightarrow> hasProtocol b)"
    by (simp add: assign_baseUrl_def hasProtocol_def)
  have filled: "fillRequestOptionDefaults \<lparr>method = Present PUT, url = ''//v1/items''\<rparr>
      (api_options\<lparr>baseUrl := Present ''http://mirror.example.com/''\<rparr>) =
      Inr \<lparr>method = Present PUT, url = ''http://mirror.example.com/v1/items''\<rparr>"
    by (simp add: fill_relative [where b = "''http://mirror.example.com/''"] hasProtocol_def
        api_options_def spec_resolved_url_def strip_trailing_slashes_def
        strip_leading_slashes_def is_slash_def newOptions_def)
  have answered: "request_at (assign_baseUrl api_store 0 ''http://mirror.example.com/'')
        \<lparr>options_at = 0, object_requestFn = asyncRequest hello_node\<rparr>
        \<lparr>method = Present PUT, url = ''//v1/items''\<rparr> [] =
       (Inr (Fulfilled
          (assemble \<lparr>method = Present PUT, url = ''http://mirror.example.com/v1/items''\<rparr>
             hello_response)),
        [(False, ''http://mirror.example.com/v1/items'', \<lparr>internal_method = Some PUT\<rparr>, None)])"
    by (simp add: request_at_def object_state_def assign_baseUrl_def api_store_def request_def
          filled hello_transport hasSecureProtocol_def hello_response_def)
  have "hasProtocol ''http://mirror.example.com/v1/items''"
    using C8_response_url_absolute [OF built disjI2 [OF still] answered] by simp
  with built still answered show ?thesis
    by (intro conjI)
qed

section \<open>extend\<close>






end

